theory Spec2Isabelle
  imports Complex_Main "HOL-Library.AList"
begin

section \<open>The presence-aware message relay of p2p/server.py\<close>

text \<open>
  The development embeds the server of \<^verbatim>\<open>src/p2p/server.py\<close>: the two module-level
  dictionaries \<^verbatim>\<open>clients\<close> and \<^verbatim>\<open>offline_messages\<close>, the helpers
  \<^verbatim>\<open>store_offline_message\<close> and \<^verbatim>\<open>retrieve_offline_messages\<close>, one iteration of the
  read loop of \<^verbatim>\<open>handle_client\<close> together with its \<^verbatim>\<open>finally\<close> block, and one iteration
  of \<^verbatim>\<open>heartbeat_checker\<close>.

  Modelling decisions:
  \<^item> One loop iteration of a handler and one sweep of the checker are atomic steps on the
    shared state; interleavings inside a step (the threads of the source take no lock) are
    not represented.
  \<^item> \<^verbatim>\<open>time.time()\<close> is an input \<open>now\<close> of each step, a real number; the rounding of
    floating-point subtraction is not represented.
  \<^item> The outcome of the library calls \<^verbatim>\<open>recv\<close>, \<^verbatim>\<open>bytes.decode\<close> and \<^verbatim>\<open>json.loads\<close> is
    an input of the step (type \<open>chunk\<close>); whether the \<open>i\<close>-th \<^verbatim>\<open>send\<close> of a step raises is
    an input too (the function \<open>ok\<close>).
  \<^item> \<^verbatim>\<open>USE_REDIS\<close> is \<^verbatim>\<open>False\<close>, the value the module assigns first: the offline store
    is the in-memory dictionary. The Redis service is outside the embedding.
  \<^item> \<^verbatim>\<open>print\<close> is not represented.
  \<^item> Identifiers are whatever JSON value the frame carries under \<^verbatim>\<open>sender\<close> or
    \<^verbatim>\<open>recipient\<close>; the server does not check that they are strings.
\<close>

subsection \<open>JSON values, truth values and dictionary keys\<close>

text \<open>
  What \<^verbatim>\<open>json.loads\<close> returns. Numbers carry their exact value (Python compares and hashes
  \<^verbatim>\<open>int\<close> and \<^verbatim>\<open>float\<close> by value); the non-standard literals NaN and Infinity are
  not represented. An object is its list of items, read with \<open>map_of\<close>.
\<close>

datatype json =
    JNull
  | JBool bool
  | JNum real
  | JStr string
  | JArr "json list"
  | JObj "(string \<times> json) list"

text \<open>
  A dictionary key: Python identifies keys by \<^verbatim>\<open>hash\<close> and \<^verbatim>\<open>==\<close>, under which
  \<^verbatim>\<open>True\<close> is \<^verbatim>\<open>1\<close> and \<^verbatim>\<open>False\<close> is \<^verbatim>\<open>0\<close>. Lists and dictionaries are unhashable:
  using one as a key raises \<^verbatim>\<open>TypeError\<close> (the result \<open>None\<close> here).
\<close>

datatype pykey = KNone | KNum real | KStr string

fun key_of :: "json \<Rightarrow> pykey option" where
  "key_of JNull = Some KNone"
| "key_of (JBool b) = Some (KNum (if b then 1 else 0))"
| "key_of (JNum r) = Some (KNum r)"
| "key_of (JStr s) = Some (KStr s)"
| "key_of (JArr xs) = None"
| "key_of (JObj d) = None"

text \<open>The truth value of \<^verbatim>\<open>if client_id:\<close>.\<close>

fun truthy :: "json \<Rightarrow> bool" where
  "truthy JNull = False"
| "truthy (JBool b) = b"
| "truthy (JNum r) = (r \<noteq> 0)"
| "truthy (JStr s) = (s \<noteq> [])"
| "truthy (JArr xs) = (xs \<noteq> [])"
| "truthy (JObj d) = (d \<noteq> [])"

text \<open>\<^verbatim>\<open>message.get(name)\<close> on a dictionary: the value, or \<^verbatim>\<open>None\<close> when the key is missing.\<close>

definition dict_get :: "(string \<times> json) list \<Rightarrow> string \<Rightarrow> json" where
  "dict_get d name = (case map_of d name of None \<Rightarrow> JNull | Some v \<Rightarrow> v)"

subsection \<open>The shared state\<close>

type_synonym sock = nat

record client_info =
  socket :: sock
  last_seen :: real

text \<open>
  Both dictionaries are association lists in insertion order, as a Python \<^verbatim>\<open>dict\<close> is:
  \<open>AList.update\<close> overwrites in place or appends, \<open>AList.delete\<close> removes the key.
\<close>

record server =
  clients :: "(pykey \<times> client_info) list"
  offline_messages :: "(pykey \<times> json list) list"

definition HEARTBEAT_TIMEOUT :: real where
  "HEARTBEAT_TIMEOUT = 15"

definition initial_server :: server where
  "initial_server = \<lparr>clients = [], offline_messages = []\<rparr>"

text \<open>\<^verbatim>\<open>offline_messages.setdefault(recipient, []).append(message)\<close>\<close>

definition store_offline_message :: "pykey \<Rightarrow> json \<Rightarrow> server \<Rightarrow> server" where
  "store_offline_message recipient message s =
     s\<lparr>offline_messages :=
         AList.update recipient
           ((case map_of (offline_messages s) recipient of None \<Rightarrow> [] | Some q \<Rightarrow> q) @ [message])
           (offline_messages s)\<rparr>"

text \<open>\<^verbatim>\<open>messages = offline_messages.pop(client_id, [])\<close>\<close>

definition retrieve_offline_messages :: "pykey \<Rightarrow> server \<Rightarrow> json list \<times> server" where
  "retrieve_offline_messages client_id s =
     (case map_of (offline_messages s) client_id of
        None \<Rightarrow> ([], s)
      | Some q \<Rightarrow> (q, s\<lparr>offline_messages := AList.delete client_id (offline_messages s)\<rparr>))"

subsection \<open>What a step does to the outside\<close>

text \<open>
  \<open>Send c m b\<close>: \<^verbatim>\<open>send\<close> was called on socket \<open>c\<close> with the encoding of \<open>m\<close>, and returned
  (\<open>b\<close>) or raised (\<open>\<not> b\<close>). \<open>Close c\<close>: \<^verbatim>\<open>close\<close> was called on socket \<open>c\<close>.
\<close>

datatype event = Send sock json bool | Close sock

text \<open>
  The result of \<^verbatim>\<open>client_socket.recv(1024).decode()\<close> followed by \<^verbatim>\<open>json.loads\<close>:
  \<open>RecvRaises\<close> when \<^verbatim>\<open>recv\<close> raises, \<open>Undecodable\<close> when the bytes are not UTF-8
  (\<^verbatim>\<open>UnicodeDecodeError\<close>), \<open>Empty\<close> for no data, \<open>BadJson\<close> when \<^verbatim>\<open>json.loads\<close> raises
  \<^verbatim>\<open>JSONDecodeError\<close>, \<open>Decoded v\<close> when it returns \<open>v\<close>.
\<close>

datatype chunk = RecvRaises | Undecodable | Empty | BadJson | Decoded json

text \<open>
  How an iteration of \<^verbatim>\<open>while True\<close> ends: \<open>Continue\<close> goes round the loop again, \<open>Break\<close>
  is the \<^verbatim>\<open>break\<close>, \<open>Raised\<close> an exception that reaches \<^verbatim>\<open>except Exception\<close> of the
  outer \<^verbatim>\<open>try\<close>. After \<open>Break\<close> and \<open>Raised\<close> the \<^verbatim>\<open>finally\<close> block runs.
\<close>

datatype flow = Continue | Break | Raised

record result =
  r_flow :: flow
  r_client_id :: json
  r_server :: server
  r_events :: "event list"

text \<open>
  The loop over \<^verbatim>\<open>msgs\<close> on registration: every message is sent, an exception of a
  \<^verbatim>\<open>send\<close> is caught and the loop goes on. \<open>ok i\<close> tells whether the \<open>i\<close>-th send returns.
\<close>

fun send_all :: "sock \<Rightarrow> (nat \<Rightarrow> bool) \<Rightarrow> nat \<Rightarrow> json list \<Rightarrow> event list" where
  "send_all c ok i [] = []"
| "send_all c ok i (m # ms) = Send c m (ok i) # send_all c ok (Suc i) ms"

subsection \<open>One iteration of the read loop of handle_client\<close>

definition on_register ::
  "real \<Rightarrow> (nat \<Rightarrow> bool) \<Rightarrow> sock \<Rightarrow> (string \<times> json) list \<Rightarrow> server \<Rightarrow> result" where
  "on_register now ok client_socket d s =
     (let client_id = dict_get d ''sender'' in
      case key_of client_id of
        None \<Rightarrow> \<lparr>r_flow = Raised, r_client_id = client_id, r_server = s, r_events = []\<rparr>
      | Some k \<Rightarrow>
          (let s1 = s\<lparr>clients :=
                       AList.update k \<lparr>socket = client_socket, last_seen = now\<rparr> (clients s)\<rparr>;
               (msgs, s2) = retrieve_offline_messages k s1
           in \<lparr>r_flow = Continue, r_client_id = client_id, r_server = s2,
               r_events = send_all client_socket ok 0 msgs\<rparr>))"

definition on_heartbeat :: "real \<Rightarrow> json \<Rightarrow> server \<Rightarrow> result" where
  "on_heartbeat now client_id s =
     (case key_of client_id of
        None \<Rightarrow> \<lparr>r_flow = Raised, r_client_id = client_id, r_server = s, r_events = []\<rparr>
      | Some k \<Rightarrow>
          (case map_of (clients s) k of
             None \<Rightarrow> \<lparr>r_flow = Continue, r_client_id = client_id, r_server = s, r_events = []\<rparr>
           | Some info \<Rightarrow>
               \<lparr>r_flow = Continue, r_client_id = client_id,
                r_server = s\<lparr>clients := AList.update k (info\<lparr>last_seen := now\<rparr>) (clients s)\<rparr>,
                r_events = []\<rparr>))"

definition on_message ::
  "real \<Rightarrow> (nat \<Rightarrow> bool) \<Rightarrow> (string \<times> json) list \<Rightarrow> json \<Rightarrow> server \<Rightarrow> result" where
  "on_message now ok d client_id s =
     (let message = JObj d; recipient = dict_get d ''recipient'' in
      case key_of recipient of
        None \<Rightarrow> \<lparr>r_flow = Raised, r_client_id = client_id, r_server = s, r_events = []\<rparr>
      | Some k \<Rightarrow>
          (case map_of (clients s) k of
             None \<Rightarrow>
               \<lparr>r_flow = Continue, r_client_id = client_id,
                r_server = store_offline_message k message s, r_events = []\<rparr>
           | Some info \<Rightarrow>
               if now - last_seen info \<le> HEARTBEAT_TIMEOUT then
                 (if ok 0 then
                    \<lparr>r_flow = Continue, r_client_id = client_id, r_server = s,
                     r_events = [Send (socket info) message True]\<rparr>
                  else
                    \<lparr>r_flow = Continue, r_client_id = client_id,
                     r_server = store_offline_message k message s,
                     r_events = [Send (socket info) message False]\<rparr>)
               else
                 \<lparr>r_flow = Continue, r_client_id = client_id,
                  r_server = store_offline_message k message s, r_events = []\<rparr>))"

text \<open>
  The body of the loop. \<^verbatim>\<open>message.get\<close> exists on a dictionary only: any other JSON value
  raises \<^verbatim>\<open>AttributeError\<close>, outside the inner \<^verbatim>\<open>try\<close>. So do \<^verbatim>\<open>recv\<close> and \<^verbatim>\<open>decode\<close>.
\<close>

definition handle_client_step ::
  "real \<Rightarrow> (nat \<Rightarrow> bool) \<Rightarrow> sock \<Rightarrow> chunk \<Rightarrow> json \<Rightarrow> server \<Rightarrow> result" where
  "handle_client_step now ok client_socket data client_id s =
     (case data of
        RecvRaises \<Rightarrow> \<lparr>r_flow = Raised, r_client_id = client_id, r_server = s, r_events = []\<rparr>
      | Undecodable \<Rightarrow> \<lparr>r_flow = Raised, r_client_id = client_id, r_server = s, r_events = []\<rparr>
      | Empty \<Rightarrow> \<lparr>r_flow = Break, r_client_id = client_id, r_server = s, r_events = []\<rparr>
      | BadJson \<Rightarrow> \<lparr>r_flow = Continue, r_client_id = client_id, r_server = s, r_events = []\<rparr>
      | Decoded message \<Rightarrow>
          (case message of
             JObj d \<Rightarrow>
               (let action = dict_get d ''action'' in
                if action = JStr ''register'' then on_register now ok client_socket d s
                else if action = JStr ''heartbeat'' then on_heartbeat now client_id s
                else if action = JStr ''message'' then on_message now ok d client_id s
                else \<lparr>r_flow = Continue, r_client_id = client_id, r_server = s, r_events = []\<rparr>)
           | _ \<Rightarrow> \<lparr>r_flow = Raised, r_client_id = client_id, r_server = s, r_events = []\<rparr>))"

text \<open>
  The \<^verbatim>\<open>finally\<close> block. When \<^verbatim>\<open>client_id\<close> is a non-empty list or dictionary,
  \<^verbatim>\<open>client_id in clients\<close> raises \<^verbatim>\<open>TypeError\<close> and \<^verbatim>\<open>client_socket.close()\<close> is not
  reached.
\<close>

definition session_close :: "sock \<Rightarrow> json \<Rightarrow> server \<Rightarrow> server \<times> event list" where
  "session_close client_socket client_id s =
     (if truthy client_id then
        (case key_of client_id of
           None \<Rightarrow> (s, [])
         | Some k \<Rightarrow>
             ((if map_of (clients s) k \<noteq> None
               then s\<lparr>clients := AList.delete k (clients s)\<rparr> else s),
              [Close client_socket]))
      else (s, [Close client_socket]))"

subsection \<open>One iteration of heartbeat_checker\<close>

datatype error = KeyError

definition to_remove :: "real \<Rightarrow> (pykey \<times> client_info) list \<Rightarrow> pykey list" where
  "to_remove current_time cs =
     map fst (filter (\<lambda>(client_id, info). current_time - last_seen info > HEARTBEAT_TIMEOUT) cs)"

text \<open>
  The second loop: \<^verbatim>\<open>clients[client_id]\<close> of a missing key raises \<^verbatim>\<open>KeyError\<close>, which the
  \<^verbatim>\<open>try\<close> around \<^verbatim>\<open>close\<close> catches, but the \<^verbatim>\<open>del\<close> that follows raises it again.
\<close>

fun evict ::
  "pykey list \<Rightarrow> (pykey \<times> client_info) list \<Rightarrow> error + ((pykey \<times> client_info) list \<times> event list)"
where
  "evict [] cs = Inr (cs, [])"
| "evict (client_id # ids) cs =
     (case map_of cs client_id of
        None \<Rightarrow> Inl KeyError
      | Some info \<Rightarrow>
          (case evict ids (AList.delete client_id cs) of
             Inl e \<Rightarrow> Inl e
           | Inr (cs', evs) \<Rightarrow> Inr (cs', Close (socket info) # evs)))"

definition heartbeat_checker :: "real \<Rightarrow> server \<Rightarrow> error + (server \<times> event list)" where
  "heartbeat_checker current_time s =
     (case evict (to_remove current_time (clients s)) (clients s) of
        Inl e \<Rightarrow> Inl e
      | Inr (cs', evs) \<Rightarrow> Inr (s\<lparr>clients := cs'\<rparr>, evs))"

subsection \<open>The server as a whole: handler threads and the checker, interleaved\<close>

text \<open>
  \<open>sessions\<close> holds the running \<^verbatim>\<open>handle_client\<close> threads, each with its socket and the
  value of its local variable \<^verbatim>\<open>client_id\<close> (\<^verbatim>\<open>None\<close> at the start); \<open>accepted\<close> the
  sockets \<^verbatim>\<open>accept\<close> has returned; \<open>closed\<close> the sockets on which \<^verbatim>\<open>close\<close> was called;
  \<open>clock\<close> the time read in the last step; \<open>swept\<close> the time of the most recent sweep
  of the checker, if there was one.
\<close>

record system =
  srv :: server
  sessions :: "(sock \<times> json) list"
  accepted :: "sock list"
  closed :: "sock list"
  clock :: real
  swept :: "real option"

definition initial_system :: system where
  "initial_system =
     \<lparr>srv = initial_server, sessions = [], accepted = [], closed = [], clock = 0,
      swept = None\<rparr>"

text \<open>
  What can happen next: \<^verbatim>\<open>accept\<close> returns a new socket and its thread starts; the
  \<^verbatim>\<open>recv\<close> of a thread returns; the checker wakes up.
\<close>

datatype action = Accept sock | Recv sock chunk "nat \<Rightarrow> bool" | Sweep

fun closes :: "event list \<Rightarrow> sock list" where
  "closes [] = []"
| "closes (Close c # evs) = c # closes evs"
| "closes (Send c m b # evs) = closes evs"

definition on_accept :: "real \<Rightarrow> sock \<Rightarrow> system \<Rightarrow> system" where
  "on_accept now c sys =
     (if c \<in> set (accepted sys) then sys
      else sys\<lparr>sessions := AList.update c JNull (sessions sys),
               accepted := accepted sys @ [c], clock := now\<rparr>)"

text \<open>
  One iteration of the loop of the thread on socket \<open>c\<close>, followed by the \<^verbatim>\<open>finally\<close>
  block when the loop is left. What \<^verbatim>\<open>recv\<close> returns is an input, also on a socket on
  which the checker has called \<^verbatim>\<open>close\<close>: a \<^verbatim>\<open>recv\<close> that was waiting already can still
  deliver data.
\<close>

definition on_recv :: "real \<Rightarrow> sock \<Rightarrow> chunk \<Rightarrow> (nat \<Rightarrow> bool) \<Rightarrow> system \<Rightarrow> system" where
  "on_recv now c data ok sys =
     (case map_of (sessions sys) c of
        None \<Rightarrow> sys
      | Some client_id \<Rightarrow>
          (let r = handle_client_step now ok c data client_id (srv sys)
           in if r_flow r = Continue then
                sys\<lparr>srv := r_server r,
                    sessions := AList.update c (r_client_id r) (sessions sys), clock := now\<rparr>
              else
                (let (s', evs) = session_close c (r_client_id r) (r_server r)
                 in sys\<lparr>srv := s', sessions := AList.delete c (sessions sys),
                        closed := closed sys @ closes evs, clock := now\<rparr>)))"

definition on_sweep :: "real \<Rightarrow> system \<Rightarrow> system" where
  "on_sweep now sys =
     (case heartbeat_checker now (srv sys) of
        Inl e \<Rightarrow> sys\<lparr>clock := now\<rparr>
      | Inr (s', evs) \<Rightarrow>
          sys\<lparr>srv := s', closed := closed sys @ closes evs, clock := now, swept := Some now\<rparr>)"

text \<open>
  A step comes with the value that \<^verbatim>\<open>time.time()\<close> returns in it. The server takes the
  value as it is: nothing here orders the readings.
\<close>

fun sys_step :: "real \<times> action \<Rightarrow> system \<Rightarrow> system" where
  "sys_step (now, a) sys =
     (case a of
        Accept c \<Rightarrow> on_accept now c sys
      | Recv c data ok \<Rightarrow> on_recv now c data ok sys
      | Sweep \<Rightarrow> on_sweep now sys)"

definition run :: "(real \<times> action) list \<Rightarrow> system \<Rightarrow> system" where
  "run evs sys = fold sys_step evs sys"

inductive reachable :: "system \<Rightarrow> bool" where
  reachable_init: "reachable initial_system"
| reachable_step: "reachable sys \<Longrightarrow> reachable (sys_step e sys)"

text \<open>
  Orderly runs. The readings of the clock do not decrease, and a connection registers as
  the session state machine has it: once, before anything else was registered on it, under
  an identifier that counts as true (a non-empty string does).
\<close>

fun register_frame :: "chunk \<Rightarrow> json option" where
  "register_frame (Decoded (JObj d)) =
     (if dict_get d ''action'' = JStr ''register'' then Some (dict_get d ''sender'') else None)"
| "register_frame data = None"

definition first_register :: "action \<Rightarrow> system \<Rightarrow> bool" where
  "first_register a sys =
     (case a of
        Recv c data ok \<Rightarrow>
          (case register_frame data of
             None \<Rightarrow> True
           | Some sender \<Rightarrow>
               truthy sender \<and>
               (case map_of (sessions sys) c of None \<Rightarrow> True | Some client_id \<Rightarrow> client_id = JNull))
      | _ \<Rightarrow> True)"

inductive orderly :: "system \<Rightarrow> bool" where
  orderly_init: "orderly initial_system"
| orderly_step:
    "orderly sys \<Longrightarrow> clock sys \<le> now \<Longrightarrow> first_register a sys \<Longrightarrow>
     orderly (sys_step (now, a) sys)"


subsection \<open>Observations used in the statements\<close>

text \<open>The queue of an identifier, empty when the store has no entry for it.\<close>

definition pending :: "pykey \<Rightarrow> server \<Rightarrow> json list" where
  "pending k s = (case map_of (offline_messages s) k of None \<Rightarrow> [] | Some q \<Rightarrow> q)"

text \<open>Calling \<^verbatim>\<open>store_offline_message\<close> for one recipient, message after message.\<close>

definition enqueue_all :: "pykey \<Rightarrow> json list \<Rightarrow> server \<Rightarrow> server" where
  "enqueue_all k ms s = fold (store_offline_message k) ms s"

text \<open>The test of the checker on one item of \<^verbatim>\<open>clients.items()\<close>.\<close>

definition stale :: "real \<Rightarrow> pykey \<times> client_info \<Rightarrow> bool" where
  "stale now p = (now - last_seen (snd p) > HEARTBEAT_TIMEOUT)"

text \<open>
  The registry after an iteration that is no registration: as it was, or with one entry
  stamped by a heartbeat.
\<close>

definition stamped :: "real \<Rightarrow> server \<Rightarrow> server \<Rightarrow> bool" where
  "stamped now s s' \<longleftrightarrow>
     clients s' = clients s \<or>
     (\<exists>k info. map_of (clients s) k = Some info \<and>
        clients s' = AList.update k (info\<lparr>last_seen := now\<rparr>) (clients s))"

text \<open>The keys of \<^verbatim>\<open>clients\<close> are distinct, as the keys of a dictionary are.\<close>

definition registry_inv :: "system \<Rightarrow> bool" where
  "registry_inv sys \<longleftrightarrow> distinct (map fst (clients (srv sys)))"



subsection \<open>Concrete frames, states and runs\<close>

definition always_ok :: "nat \<Rightarrow> bool" where
  "always_ok i = True"

definition never_ok :: "nat \<Rightarrow> bool" where
  "never_ok i = False"

definition msg_A_to_B :: "(string \<times> json) list" where
  "msg_A_to_B = [(''action'', JStr ''message''), (''sender'', JStr ''A''),
                 (''recipient'', JStr ''B''), (''timestamp'', JNum 1), (''payload'', JStr ''hi'')]"


definition register_B :: "(string \<times> json) list" where
  "register_B = [(''action'', JStr ''register''), (''sender'', JStr ''B''), (''timestamp'', JNum 2)]"

text \<open>A registration without the field \<^verbatim>\<open>sender\<close>, and a heartbeat that names a sender.\<close>

definition register_null :: "(string \<times> json) list" where
  "register_null = [(''action'', JStr ''register'')]"

definition heartbeat_x :: "(string \<times> json) list" where
  "heartbeat_x = [(''action'', JStr ''heartbeat''), (''sender'', JStr ''x'')]"

definition B_online :: server where
  "B_online = \<lparr>clients = [(KStr ''B'', \<lparr>socket = 2, last_seen = 0\<rparr>)], offline_messages = []\<rparr>"

definition B_on_socket_2 :: server where
  "B_on_socket_2 = \<lparr>clients = [(KStr ''B'', \<lparr>socket = 2, last_seen = 0\<rparr>)],
                    offline_messages = [(KStr ''B'', [JStr ''m1''])]\<rparr>"

definition two_clients :: server where
  "two_clients = \<lparr>clients = [(KStr ''A'', \<lparr>socket = 1, last_seen = 0\<rparr>),
                             (KStr ''B'', \<lparr>socket = 2, last_seen = 90\<rparr>)],
                  offline_messages = [(KStr ''A'', [JStr ''m1''])]\<rparr>"

text \<open>B registers on socket 1, then again on socket 2; the first thread is still running.\<close>

definition reconnected :: system where
  "reconnected = run [(0, Accept 1), (0, Recv 1 (Decoded (JObj register_B)) always_ok),
                      (1, Accept 2), (1, Recv 2 (Decoded (JObj register_B)) always_ok)]
                   initial_system"



text \<open>A connection registers under the empty string, then its peer hangs up.\<close>

definition register_empty :: "(string \<times> json) list" where
  "register_empty = [(''action'', JStr ''register''), (''sender'', JStr [])]"

definition empty_name :: system where
  "empty_name = run [(0, Accept 1), (0, Recv 1 (Decoded (JObj register_empty)) always_ok),
                     (1, Recv 1 Empty always_ok)] initial_system"

definition B_registered :: system where
  "B_registered = run [(0, Accept 2), (0, Recv 2 (Decoded (JObj register_B)) always_ok)]
                    initial_system"

text \<open>
  The connection on socket 1 registers without a sender; a second connection is accepted
  and has not registered.
\<close>

definition null_registered :: system where
  "null_registered = run [(0, Accept 1), (0, Recv 1 (Decoded (JObj register_null)) always_ok),
                          (10, Accept 2)] initial_system"

section \<open>Properties\<close>

subsection \<open>Dispatch on the action, the offline store, the sends of a registration\<close>

lemmas model_defs =
  run_def on_accept_def on_recv_def on_sweep_def handle_client_step_def on_register_def
  on_heartbeat_def on_message_def session_close_def retrieve_offline_messages_def
  store_offline_message_def heartbeat_checker_def to_remove_def dict_get_def
  initial_system_def initial_server_def HEARTBEAT_TIMEOUT_def always_ok_def never_ok_def
  Let_def AList.delete_eq

lemma handle_message:
  "dict_get d ''action'' = JStr ''message'' \<Longrightarrow>
   handle_client_step now ok c (Decoded (JObj d)) cid s = on_message now ok d cid s"
  by (simp add: handle_client_step_def)

lemma handle_register:
  "dict_get d ''action'' = JStr ''register'' \<Longrightarrow>
   handle_client_step now ok c (Decoded (JObj d)) cid s = on_register now ok c d s"
  by (simp add: handle_client_step_def)

lemma handle_heartbeat:
  "dict_get d ''action'' = JStr ''heartbeat'' \<Longrightarrow>
   handle_client_step now ok c (Decoded (JObj d)) cid s = on_heartbeat now cid s"
  by (simp add: handle_client_step_def)

lemma msg_A_to_B_fields:
  "dict_get msg_A_to_B ''action'' = JStr ''message''"
  "dict_get msg_A_to_B ''recipient'' = JStr ''B''"
  by (simp_all add: dict_get_def msg_A_to_B_def)

lemma register_B_fields:
  "dict_get register_B ''action'' = JStr ''register''"
  "dict_get register_B ''sender'' = JStr ''B''"
  by (simp_all add: dict_get_def register_B_def)

lemma store_offline_message_queue:
  "map_of (offline_messages (store_offline_message k m s)) k =
     Some ((case map_of (offline_messages s) k of None \<Rightarrow> [] | Some q \<Rightarrow> q) @ [m])"
  by (simp add: store_offline_message_def update_conv')

lemma store_offline_message_clients:
  "clients (store_offline_message k m s) = clients s"
  by (simp add: store_offline_message_def)

lemma pending_store: "pending k (store_offline_message k m s) = pending k s @ [m]"
  by (simp add: pending_def store_offline_message_queue)

lemma pending_enqueue_all: "pending k (enqueue_all k ms s) = pending k s @ ms"
  unfolding enqueue_all_def
  by (induction ms arbitrary: s) (simp_all add: pending_store)

lemma retrieve_offline_messages_gone:
  "map_of (offline_messages (snd (retrieve_offline_messages k s))) k = None"
  by (simp add: retrieve_offline_messages_def delete_conv' split: option.splits)

lemma send_all_no_close: "Close x \<notin> set (send_all c ok i ms)"
  by (induction ms arbitrary: i) auto

lemma send_all_nth:
  "send_all c ok i ms = map (\<lambda>(j, m). Send c m (ok j)) (zip [i ..< i + length ms] ms)"
proof (induction ms arbitrary: i)
  case Nil
  then show ?case by simp
next
  case (Cons m ms)
  have "[i ..< i + length (m # ms)] = i # [Suc i ..< Suc i + length ms]"
    by (simp add: upt_rec)
  with Cons show ?case by simp
qed

lemma on_register_hashable:
  assumes "key_of (dict_get d ''sender'') = Some k"
  shows "r_events (on_register now ok c d s) = send_all c ok 0 (pending k s)"
    and "offline_messages (r_server (on_register now ok c d s))
           = offline_messages (snd (retrieve_offline_messages k s))"
    and "clients (r_server (on_register now ok c d s))
           = AList.update k \<lparr>socket = c, last_seen = now\<rparr> (clients s)"
    and "r_flow (on_register now ok c d s) = Continue"
    and "r_client_id (on_register now ok c d s) = dict_get d ''sender''"
  using assms
  by (simp_all add: on_register_def Let_def retrieve_offline_messages_def pending_def
      split: option.splits)

subsection \<open>Routing a message\<close>

text \<open>
  C1. A frame with action \<^verbatim>\<open>message\<close> whose recipient has an entry in \<^verbatim>\<open>clients\<close> with
  \<open>now - last_seen \<le> HEARTBEAT_TIMEOUT\<close> is sent on the socket of that entry, and that is the
  only send; when the send returns, the server state, and with it every offline queue, is
  as before, and the loop of the sender goes on.
\<close>

theorem deliver_live_is_sent:
  assumes "dict_get d ''action'' = JStr ''message''"
    and "key_of (dict_get d ''recipient'') = Some k"
    and "map_of (clients s) k = Some info"
    and "now - last_seen info \<le> HEARTBEAT_TIMEOUT"
  shows "r_events (handle_client_step now ok c (Decoded (JObj d)) cid s)
           = [Send (socket info) (JObj d) (ok 0)]
       \<and> (ok 0 \<longrightarrow> r_server (handle_client_step now ok c (Decoded (JObj d)) cid s) = s)
       \<and> r_flow (handle_client_step now ok c (Decoded (JObj d)) cid s) = Continue"
  using assms by (simp add: handle_message on_message_def Let_def)

theorem deliver_live_is_sent_witness:
  "r_events (handle_client_step 1 always_ok 1 (Decoded (JObj msg_A_to_B)) (JStr ''A'') B_online)
     = [Send 2 (JObj msg_A_to_B) True]
   \<and> r_server (handle_client_step 1 always_ok 1 (Decoded (JObj msg_A_to_B)) (JStr ''A'') B_online)
     = B_online"
  using deliver_live_is_sent [of msg_A_to_B "KStr ''B''" B_online "\<lparr>socket = 2, last_seen = 0\<rparr>"
      1 always_ok 1 "JStr ''A''"]
  by (simp add: msg_A_to_B_fields B_online_def HEARTBEAT_TIMEOUT_def always_ok_def)

text \<open>
  C2. A frame with action \<^verbatim>\<open>message\<close> whose recipient has no entry in \<^verbatim>\<open>clients\<close>, or an
  entry with \<open>now - last_seen > HEARTBEAT_TIMEOUT\<close>, is appended to the end of the offline
  queue of the recipient, and no send is attempted. The recipient is a value that can be
  looked up in a dictionary.
\<close>

theorem deliver_offline_is_queued:
  assumes "dict_get d ''action'' = JStr ''message''"
    and "key_of (dict_get d ''recipient'') = Some k"
    and "map_of (clients s) k = None \<or>
         (\<exists>info. map_of (clients s) k = Some info \<and> now - last_seen info > HEARTBEAT_TIMEOUT)"
  shows "r_events (handle_client_step now ok c (Decoded (JObj d)) cid s) = []
       \<and> map_of (offline_messages (r_server (handle_client_step now ok c (Decoded (JObj d)) cid s))) k
           = Some ((case map_of (offline_messages s) k of None \<Rightarrow> [] | Some q \<Rightarrow> q) @ [JObj d])
       \<and> r_flow (handle_client_step now ok c (Decoded (JObj d)) cid s) = Continue"
  using assms
  by (auto simp add: handle_message on_message_def Let_def store_offline_message_queue)

theorem deliver_offline_is_queued_witness:
  "r_events (handle_client_step 100 always_ok 1 (Decoded (JObj msg_A_to_B)) (JStr ''A'') B_online)
     = []
   \<and> map_of (offline_messages (r_server
        (handle_client_step 100 always_ok 1 (Decoded (JObj msg_A_to_B)) (JStr ''A'') B_online)))
        (KStr ''B'') = Some [JObj msg_A_to_B]"
  using deliver_offline_is_queued [of msg_A_to_B "KStr ''B''" B_online 100 always_ok 1 "JStr ''A''"]
  by (simp add: msg_A_to_B_fields B_online_def HEARTBEAT_TIMEOUT_def)

text \<open>
  C3, as stated, fails: B is registered on socket 2 and live, the send to B raises; the
  message is queued, but the entry of B is still in \<^verbatim>\<open>clients\<close>. No statement of the
  source removes an entry when a send fails.
\<close>

theorem failed_send_keeps_entry_counterexample:
  "r_events (handle_client_step 1 never_ok 1 (Decoded (JObj msg_A_to_B)) (JStr ''A'') B_online)
     = [Send 2 (JObj msg_A_to_B) False]
   \<and> map_of (clients (r_server
        (handle_client_step 1 never_ok 1 (Decoded (JObj msg_A_to_B)) (JStr ''A'') B_online)))
        (KStr ''B'') = Some \<lparr>socket = 2, last_seen = 0\<rparr>"
  by (simp add: handle_message msg_A_to_B_fields on_message_def Let_def B_online_def
      HEARTBEAT_TIMEOUT_def never_ok_def store_offline_message_def)

text \<open>
  C3, amended. When the send to a live recipient raises, the message is appended to the
  offline queue of the recipient and \<^verbatim>\<open>clients\<close> is left as it is; the exception is caught:
  the loop of the sender goes on, with its identifier unchanged.
\<close>

theorem failed_send_is_queued:
  assumes "dict_get d ''action'' = JStr ''message''"
    and "key_of (dict_get d ''recipient'') = Some k"
    and "map_of (clients s) k = Some info"
    and "now - last_seen info \<le> HEARTBEAT_TIMEOUT"
    and "\<not> ok 0"
  shows "r_events (handle_client_step now ok c (Decoded (JObj d)) cid s)
           = [Send (socket info) (JObj d) False]
       \<and> r_server (handle_client_step now ok c (Decoded (JObj d)) cid s)
           = store_offline_message k (JObj d) s
       \<and> clients (r_server (handle_client_step now ok c (Decoded (JObj d)) cid s)) = clients s
       \<and> r_flow (handle_client_step now ok c (Decoded (JObj d)) cid s) = Continue
       \<and> r_client_id (handle_client_step now ok c (Decoded (JObj d)) cid s) = cid"
  using assms
  by (simp add: handle_message on_message_def Let_def store_offline_message_clients)

theorem failed_send_is_queued_witness:
  "r_events (handle_client_step 1 never_ok 1 (Decoded (JObj msg_A_to_B)) (JStr ''A'') B_online)
     = [Send 2 (JObj msg_A_to_B) False]
   \<and> map_of (offline_messages (r_server
        (handle_client_step 1 never_ok 1 (Decoded (JObj msg_A_to_B)) (JStr ''A'') B_online)))
        (KStr ''B'') = Some [JObj msg_A_to_B]"
  using failed_send_is_queued [of msg_A_to_B "KStr ''B''" B_online "\<lparr>socket = 2, last_seen = 0\<rparr>" 1
      never_ok 1 "JStr ''A''"]
  by (simp add: msg_A_to_B_fields B_online_def HEARTBEAT_TIMEOUT_def never_ok_def
      store_offline_message_def)

subsection \<open>Registration\<close>

text \<open>
  C4. Whatever messages were stored for an identifier, in whatever state, a frame with
  action \<^verbatim>\<open>register\<close> for that identifier sends the whole queue (what was pending before,
  then the stored messages in the order they were stored) on the registering socket, one
  send per message, and afterwards the offline store has no entry for the identifier.
\<close>

theorem register_drains_queue_in_order:
  assumes "dict_get d ''action'' = JStr ''register''"
    and "key_of (dict_get d ''sender'') = Some k"
  shows "r_events (handle_client_step now ok c (Decoded (JObj d)) cid (enqueue_all k ms s))
           = map (\<lambda>(j, m). Send c m (ok j))
               (zip [0 ..< length (pending k s @ ms)] (pending k s @ ms))
       \<and> map_of (offline_messages
            (r_server (handle_client_step now ok c (Decoded (JObj d)) cid (enqueue_all k ms s)))) k
           = None"
  using assms
  by (simp add: handle_register on_register_hashable send_all_nth pending_enqueue_all
      retrieve_offline_messages_gone del: upt_Suc)

theorem register_drains_queue_in_order_witness:
  "r_events (handle_client_step 5 always_ok 7 (Decoded (JObj register_B)) JNull
      (enqueue_all (KStr ''B'') [JStr ''m1'', JStr ''m2'', JStr ''m3''] initial_server))
     = [Send 7 (JStr ''m1'') True, Send 7 (JStr ''m2'') True, Send 7 (JStr ''m3'') True]"
  using register_drains_queue_in_order [of register_B "KStr ''B''" 5 always_ok 7 JNull
      "[JStr ''m1'', JStr ''m2'', JStr ''m3'']" initial_server]
  by (simp add: register_B_fields pending_def initial_server_def always_ok_def upt_rec)

text \<open>
  C8. A frame with action \<^verbatim>\<open>register\<close> for an identifier whose entry holds another socket
  overwrites the entry with the registering socket and \<open>last_seen = now\<close>; the other
  entries stay, and the registration calls \<^verbatim>\<open>close\<close> on no socket, the old one included.
\<close>

theorem register_replaces_entry:
  assumes "dict_get d ''action'' = JStr ''register''"
    and "key_of (dict_get d ''sender'') = Some k"
    and "map_of (clients s) k = Some old"
    and "socket old \<noteq> c"
  shows "map_of (clients (r_server (handle_client_step now ok c (Decoded (JObj d)) cid s))) k
           = Some \<lparr>socket = c, last_seen = now\<rparr>
       \<and> (\<forall>k'. k' \<noteq> k \<longrightarrow>
            map_of (clients (r_server (handle_client_step now ok c (Decoded (JObj d)) cid s))) k'
              = map_of (clients s) k')
       \<and> (\<forall>x. Close x \<notin> set (r_events (handle_client_step now ok c (Decoded (JObj d)) cid s)))
       \<and> r_flow (handle_client_step now ok c (Decoded (JObj d)) cid s) = Continue"
  using assms
  by (simp add: handle_register on_register_hashable update_conv' send_all_no_close)

theorem register_replaces_entry_witness:
  "map_of (clients (r_server
      (handle_client_step 5 always_ok 7 (Decoded (JObj register_B)) JNull B_on_socket_2)))
      (KStr ''B'') = Some \<lparr>socket = 7, last_seen = 5\<rparr>
   \<and> Close 2 \<notin> set (r_events
      (handle_client_step 5 always_ok 7 (Decoded (JObj register_B)) JNull B_on_socket_2))"
  using register_replaces_entry [of register_B "KStr ''B''" B_on_socket_2
      "\<lparr>socket = 2, last_seen = 0\<rparr>" 7 5 always_ok JNull]
  by (simp add: register_B_fields B_on_socket_2_def)

subsection \<open>The sweep of the checker\<close>

lemma to_remove_stale: "to_remove now cs = map fst (filter (stale now) cs)"
  by (simp add: to_remove_def stale_def [abs_def] case_prod_unfold)

lemma evict_keys:
  "distinct (map fst cs) \<Longrightarrow> distinct ks \<Longrightarrow> set ks \<subseteq> fst ` set cs \<Longrightarrow>
   evict ks cs = Inr (filter (\<lambda>p. fst p \<notin> set ks) cs,
                      map (\<lambda>k. Close (socket (the (map_of cs k)))) ks)"
proof (induction ks arbitrary: cs)
  case Nil
  then show ?case by simp
next
  case (Cons k ks)
  from Cons.prems obtain info where info: "map_of cs k = Some info"
    by (auto simp: weak_map_of_SomeI)
  have d: "distinct (map fst (AList.delete k cs))"
    using Cons.prems(1) by (rule distinct_delete)
  have "set (map fst (AList.delete k cs)) = set (map fst cs) - {k}"
    by (simp only: delete_keys set_removeAll)
  then have sub: "set ks \<subseteq> fst ` set (AList.delete k cs)"
    using Cons.prems(2,3) by auto
  have ih: "evict ks (AList.delete k cs) =
      Inr (filter (\<lambda>p. fst p \<notin> set ks) (AList.delete k cs),
           map (\<lambda>k'. Close (socket (the (map_of (AList.delete k cs) k')))) ks)"
    using Cons.IH [OF d _ sub] Cons.prems(2) by simp
  have f: "filter (\<lambda>p. fst p \<notin> set ks) (AList.delete k cs)
         = filter (\<lambda>p. fst p \<notin> set (k # ks)) cs"
    by (auto simp: AList.delete_eq case_prod_beta intro: filter_cong)
  have m: "map (\<lambda>k'. Close (socket (the (map_of (AList.delete k cs) k')))) ks
         = map (\<lambda>k'. Close (socket (the (map_of cs k')))) ks"
    using Cons.prems(2) by (auto simp: delete_conv')
  show ?case by (simp add: info ih f m)
qed

lemma evict_to_remove:
  assumes "distinct (map fst cs)"
  shows "evict (to_remove now cs) cs =
           Inr (filter (\<lambda>p. \<not> stale now p) cs,
                map (\<lambda>p. Close (socket (snd p))) (filter (stale now) cs))"
proof -
  let ?ks = "map fst (filter (stale now) cs)"
  have dk: "distinct ?ks" using assms by (rule distinct_map_filter)
  have sub: "set ?ks \<subseteq> fst ` set cs" by auto
  have f: "filter (\<lambda>p. fst p \<notin> set ?ks) cs = filter (\<lambda>p. \<not> stale now p) cs"
  proof (rule filter_cong [OF refl])
    fix p assume p: "p \<in> set cs"
    show "(fst p \<notin> set ?ks) = (\<not> stale now p)"
    proof
      assume n: "fst p \<notin> set ?ks"
      show "\<not> stale now p"
      proof
        assume "stale now p"
        with p have "p \<in> set (filter (stale now) cs)" by simp
        then have "fst p \<in> fst ` set (filter (stale now) cs)" by (rule imageI)
        with n show False by simp
      qed
    next
      assume ns: "\<not> stale now p"
      show "fst p \<notin> set ?ks"
      proof
        assume "fst p \<in> set ?ks"
        then obtain q where q: "q \<in> set cs" "stale now q" "fst q = fst p" by auto
        from assms p q(1,3) have "q = p"
          by (metis eq_key_imp_eq_value prod.collapse)
        with q(2) ns show False by simp
      qed
    qed
  qed
  have m: "map (\<lambda>k. Close (socket (the (map_of cs k)))) ?ks
         = map (\<lambda>p. Close (socket (snd p))) (filter (stale now) cs)"
    using assms by (auto simp: comp_def)
  show ?thesis
    unfolding to_remove_stale using evict_keys [OF assms dk sub] by (simp only: f m)
qed

lemma heartbeat_checker_distinct:
  assumes "distinct (map fst (clients s))"
  shows "heartbeat_checker now s =
           Inr (s\<lparr>clients := filter (\<lambda>p. \<not> stale now p) (clients s)\<rparr>,
                map (\<lambda>p. Close (socket (snd p))) (filter (stale now) (clients s)))"
  by (simp add: heartbeat_checker_def evict_to_remove [OF assms])

lemma map_of_filter_distinct:
  assumes "distinct (map fst cs)"
  shows "map_of (filter P cs) k =
           (case map_of cs k of None \<Rightarrow> None | Some v \<Rightarrow> if P (k, v) then Some v else None)"
  using assms
proof (induction cs)
  case Nil
  then show ?case by simp
next
  case (Cons p cs)
  obtain a b where p: "p = (a, b)" by (cases p)
  show ?case
  proof (cases "a = k")
    case True
    with Cons.prems p have "map_of cs k = None"
      by (simp add: map_of_eq_None_iff)
    with Cons p True show ?thesis by simp
  next
    case False
    with Cons p show ?thesis by simp
  qed
qed

text \<open>
  C6. One sweep at time \<open>now\<close>, on a registry whose keys are distinct (as the keys of a
  dictionary are), returns: every entry with \<open>now - last_seen > HEARTBEAT_TIMEOUT\<close> is removed
  and \<^verbatim>\<open>close\<close> is called on its socket; every entry that is left is within the window; the
  entries within the window and the offline store are untouched. The sweep needs no frame
  from any client.
\<close>

theorem sweep_evicts_stale:
  assumes "distinct (map fst (clients s))"
  shows "\<exists>s' evs. heartbeat_checker now s = Inr (s', evs)
       \<and> (\<forall>k info. map_of (clients s) k = Some info \<and> now - last_seen info > HEARTBEAT_TIMEOUT
             \<longrightarrow> map_of (clients s') k = None \<and> Close (socket info) \<in> set evs)
       \<and> (\<forall>k info. map_of (clients s') k = Some info \<longrightarrow> now - last_seen info \<le> HEARTBEAT_TIMEOUT)
       \<and> (\<forall>k info. map_of (clients s) k = Some info \<and> now - last_seen info \<le> HEARTBEAT_TIMEOUT
             \<longrightarrow> map_of (clients s') k = Some info)
       \<and> offline_messages s' = offline_messages s"
proof -
  let ?s' = "s\<lparr>clients := filter (\<lambda>p. \<not> stale now p) (clients s)\<rparr>"
  let ?evs = "map (\<lambda>p. Close (socket (snd p))) (filter (stale now) (clients s))"
  have r: "heartbeat_checker now s = Inr (?s', ?evs)"
    using assms by (rule heartbeat_checker_distinct)
  have m: "\<And>k. map_of (filter (\<lambda>p. \<not> stale now p) (clients s)) k =
      (case map_of (clients s) k of None \<Rightarrow> None
       | Some v \<Rightarrow> if \<not> stale now (k, v) then Some v else None)"
    by (rule map_of_filter_distinct [OF assms])
  have sd: "\<And>k i. stale now (k, i) = (now - last_seen i > HEARTBEAT_TIMEOUT)"
    by (simp add: stale_def)
  have a: "\<forall>k info. map_of (clients s) k = Some info \<and> now - last_seen info > HEARTBEAT_TIMEOUT
             \<longrightarrow> map_of (clients ?s') k = None \<and> Close (socket info) \<in> set ?evs"
  proof (intro allI impI, elim conjE)
    fix k info
    assume l: "map_of (clients s) k = Some info" and st: "now - last_seen info > HEARTBEAT_TIMEOUT"
    from l have "(k, info) \<in> set (clients s)" by (rule map_of_SomeD)
    moreover from st have "stale now (k, info)" by (simp add: stale_def)
    ultimately have "Close (socket info) \<in> set ?evs" by force
    moreover from l st have "map_of (clients ?s') k = None" by (simp add: m sd)
    ultimately show "map_of (clients ?s') k = None \<and> Close (socket info) \<in> set ?evs" by simp
  qed
  have b: "\<forall>k info. map_of (clients ?s') k = Some info \<longrightarrow> now - last_seen info \<le> HEARTBEAT_TIMEOUT"
    by (auto simp: m sd split: option.splits if_splits)
  have c: "\<forall>k info. map_of (clients s) k = Some info \<and> now - last_seen info \<le> HEARTBEAT_TIMEOUT
             \<longrightarrow> map_of (clients ?s') k = Some info"
    by (auto simp: m sd)
  have d: "offline_messages ?s' = offline_messages s" by simp
  from r a b c d show ?thesis by blast
qed

theorem sweep_evicts_stale_witness:
  "heartbeat_checker 100 two_clients
     = Inr (\<lparr>clients = [(KStr ''B'', \<lparr>socket = 2, last_seen = 90\<rparr>)],
             offline_messages = [(KStr ''A'', [JStr ''m1''])]\<rparr>, [Close 1])"
  using sweep_evicts_stale [of two_clients 100]
  by (simp add: two_clients_def model_defs)

subsection \<open>Runs of the whole server\<close>

lemma reachable_run: "reachable sys \<Longrightarrow> reachable (run evs sys)"
  unfolding run_def
  by (induction evs arbitrary: sys) (simp_all add: reachable_step del: sys_step.simps)

lemma orderly_reachable: "orderly sys \<Longrightarrow> reachable sys"
  by (induction rule: orderly.induct)
    (simp_all add: reachable_init reachable_step del: sys_step.simps)


lemma reconnected_eval:
  "reconnected = \<lparr>srv = \<lparr>clients = [(KStr ''B'', \<lparr>socket = 2, last_seen = 1\<rparr>)],
                         offline_messages = []\<rparr>,
                  sessions = [(1, JStr ''B''), (2, JStr ''B'')], accepted = [1, 2],
                  closed = [], clock = 1, swept = None\<rparr>"
  by (simp add: reconnected_def register_B_def model_defs)



lemma empty_name_eval:
  "empty_name = \<lparr>srv = \<lparr>clients = [(KStr [], \<lparr>socket = 1, last_seen = 0\<rparr>)],
                        offline_messages = []\<rparr>,
                 sessions = [], accepted = [1], closed = [1], clock = 1, swept = None\<rparr>"
  by (simp add: empty_name_def register_empty_def model_defs)

lemma B_registered_eval:
  "B_registered = \<lparr>srv = \<lparr>clients = [(KStr ''B'', \<lparr>socket = 2, last_seen = 0\<rparr>)],
                          offline_messages = []\<rparr>,
                   sessions = [(2, JStr ''B'')], accepted = [2], closed = [], clock = 0,
                   swept = None\<rparr>"
  by (simp add: B_registered_def register_B_def model_defs)

lemma null_registered_eval:
  "null_registered = \<lparr>srv = \<lparr>clients = [(KNone, \<lparr>socket = 1, last_seen = 0\<rparr>)],
                             offline_messages = []\<rparr>,
                      sessions = [(1, JNull), (2, JNull)], accepted = [1, 2], closed = [],
                      clock = 10, swept = None\<rparr>"
  by (simp add: null_registered_def register_null_def model_defs)

subsection \<open>Steps and the registry\<close>


lemma set_delete_subset: "set (AList.delete k al) \<subseteq> set al"
  by (auto simp: AList.delete_eq)




text \<open>What an iteration does to the registry and to the identifier of the thread.\<close>

lemma step_not_register:
  assumes "register_frame data = None"
  shows "r_client_id (handle_client_step now ok c data cid s) = cid"
    and "stamped now s (r_server (handle_client_step now ok c data cid s))"
proof -
  have h: "r_client_id (on_heartbeat now cid s) = cid \<and> stamped now s (r_server (on_heartbeat now cid s))"
    by (auto simp: on_heartbeat_def stamped_def split: option.splits)
  have m: "\<And>d. r_client_id (on_message now ok d cid s) = cid
       \<and> stamped now s (r_server (on_message now ok d cid s))"
    by (simp add: on_message_def Let_def stamped_def store_offline_message_clients
        split: option.splits)
  have "r_client_id (handle_client_step now ok c data cid s) = cid
      \<and> stamped now s (r_server (handle_client_step now ok c data cid s))"
  proof (cases data)
    case (Decoded v)
    show ?thesis
    proof (cases v)
      case (JObj d)
      with Decoded assms have "dict_get d ''action'' \<noteq> JStr ''register''"
        by (simp split: if_splits)
      with Decoded JObj h m show ?thesis
        by (simp add: handle_client_step_def Let_def stamped_def)
    qed (simp_all add: Decoded handle_client_step_def stamped_def)
  qed (simp_all add: handle_client_step_def stamped_def)
  then show "r_client_id (handle_client_step now ok c data cid s) = cid"
    and "stamped now s (r_server (handle_client_step now ok c data cid s))" by simp_all
qed

lemma step_register:
  assumes "register_frame data = Some sender"
  shows "r_client_id (handle_client_step now ok c data cid s) = sender"
    and "key_of sender = None \<Longrightarrow>
           r_flow (handle_client_step now ok c data cid s) = Raised \<and>
           r_server (handle_client_step now ok c data cid s) = s"
    and "key_of sender = Some k \<Longrightarrow>
           r_flow (handle_client_step now ok c data cid s) = Continue \<and>
           clients (r_server (handle_client_step now ok c data cid s))
             = AList.update k \<lparr>socket = c, last_seen = now\<rparr> (clients s)"
proof -
  from assms obtain d where d: "data = Decoded (JObj d)"
    "dict_get d ''action'' = JStr ''register''" "sender = dict_get d ''sender''"
    by (cases data rule: register_frame.cases) (auto split: if_splits)
  then have r: "handle_client_step now ok c data cid s = on_register now ok c d s"
    by (simp add: handle_register)
  show "r_client_id (handle_client_step now ok c data cid s) = sender"
    by (simp add: r d(3) on_register_def Let_def split: option.splits prod.splits)
  show "key_of sender = None \<Longrightarrow>
           r_flow (handle_client_step now ok c data cid s) = Raised \<and>
           r_server (handle_client_step now ok c data cid s) = s"
    by (simp add: r d(3) on_register_def)
  show "key_of sender = Some k \<Longrightarrow>
           r_flow (handle_client_step now ok c data cid s) = Continue \<and>
           clients (r_server (handle_client_step now ok c data cid s))
             = AList.update k \<lparr>socket = c, last_seen = now\<rparr> (clients s)"
    using on_register_hashable [of d k now ok c s] by (simp add: r d(3))
qed

lemma stamped_distinct:
  "stamped now s s' \<Longrightarrow> distinct (map fst (clients s)) \<Longrightarrow> distinct (map fst (clients s'))"
  by (auto simp: stamped_def distinct_update)


lemma session_close_cases:
  "session_close c cid s =
     (if truthy cid then
        (case key_of cid of None \<Rightarrow> (s, [])
         | Some k \<Rightarrow> (s\<lparr>clients := AList.delete k (clients s)\<rparr>, [Close c]))
      else (s, [Close c]))"
  by (auto simp: session_close_def map_of_eq_None_iff split: option.splits)

text \<open>The keys of the registry are distinct in every reachable state, orderly or not.\<close>

lemma step_distinct:
  assumes "distinct (map fst (clients s))"
  shows "distinct (map fst (clients (r_server (handle_client_step now ok c data cid s))))"
proof (cases "register_frame data")
  case None
  from step_not_register(2) [OF None] assms show ?thesis by (rule stamped_distinct)
next
  case (Some sender)
  show ?thesis
  proof (cases "key_of sender")
    case None
    with step_register(2) [OF Some] assms show ?thesis by simp
  next
    case k: (Some k)
    with step_register(3) [OF Some] assms show ?thesis by (simp add: distinct_update)
  qed
qed

lemma session_close_distinct:
  assumes "distinct (map fst (clients s))"
  shows "distinct (map fst (clients (fst (session_close c cid s))))"
  using assms by (simp add: session_close_cases distinct_delete split: option.splits)

lemma registry_inv_step:
  assumes "registry_inv sys"
  shows "registry_inv (sys_step e sys)"
proof (cases e)
  case (Pair now a)
  from assms have d: "distinct (map fst (clients (srv sys)))" by (simp add: registry_inv_def)
  show ?thesis
  proof (cases a)
    case (Accept c)
    with Pair d show ?thesis by (simp add: registry_inv_def on_accept_def)
  next
    case (Recv c data ok)
    show ?thesis
    proof (cases "map_of (sessions sys) c")
      case None
      with Pair Recv d show ?thesis by (simp add: registry_inv_def on_recv_def)
    next
      case (Some cid)
      let ?r = "handle_client_step now ok c data cid (srv sys)"
      have d1: "distinct (map fst (clients (r_server ?r)))" using d by (rule step_distinct)
      then have "distinct (map fst (clients (fst (session_close c (r_client_id ?r) (r_server ?r)))))"
        by (rule session_close_distinct)
      with d1 Pair Recv Some show ?thesis
        by (simp add: registry_inv_def on_recv_def Let_def case_prod_unfold)
    qed
  next
    case Sweep
    with Pair d show ?thesis
      by (simp add: registry_inv_def on_sweep_def heartbeat_checker_distinct [OF d]
          distinct_map_filter)
  qed
qed

lemma reachable_registry_inv: "reachable sys \<Longrightarrow> registry_inv sys"
proof (induction rule: reachable.induct)
  case reachable_init
  show ?case by (simp add: registry_inv_def initial_system_def initial_server_def)
next
  case (reachable_step sys e)
  then show ?case by (simp add: registry_inv_step del: sys_step.simps)
qed

subsection \<open>The registry in orderly runs\<close>
















lemma stamped_refl: "stamped now s s"
  by (simp add: stamped_def)





text \<open>
  The same with an identifier that does not count as true: the \<^verbatim>\<open>finally\<close> block skips
  the entry.
\<close>

lemma falsy_identifier_stays_registered:
  "reachable empty_name
   \<and> map_of (clients (srv empty_name)) (KStr []) = Some \<lparr>socket = 1, last_seen = 0\<rparr>
   \<and> 1 \<in> set (closed empty_name)"
proof -
  have "reachable empty_name" unfolding empty_name_def by (rule reachable_run [OF reachable_init])
  then show ?thesis by (simp add: empty_name_eval)
qed





subsection \<open>Leaving the loop\<close>

text \<open>
  C7, as stated, fails. In the run \<open>reconnected\<close> B registered on socket 1 and then on
  socket 2, so the entry of B holds socket 2. When the thread of socket 1 reads no data and
  leaves its loop, the entry of B, which points at the newer connection, is deleted; the
  thread of socket 2 is still running and only socket 1 is closed. The \<^verbatim>\<open>finally\<close> block
  tests the identifier, never the socket of the entry.
\<close>

theorem close_drops_newer_entry_counterexample:
  "map_of (clients (srv reconnected)) (KStr ''B'') = Some \<lparr>socket = 2, last_seen = 1\<rparr>
   \<and> map_of (sessions reconnected) 1 = Some (JStr ''B'')
   \<and> map_of (clients (srv (sys_step (2, Recv 1 Empty always_ok) reconnected))) (KStr ''B'') = None
   \<and> map_of (sessions (sys_step (2, Recv 1 Empty always_ok) reconnected)) 2 = Some (JStr ''B'')
   \<and> closed (sys_step (2, Recv 1 Empty always_ok) reconnected) = [1]"
  by (simp add: reconnected_eval model_defs)

text \<open>
  C7, amended. When a thread leaves its loop with an identifier that counts as true and
  can be a dictionary key (any non-empty string does), the entry of that identifier is
  removed from the registry whatever socket it holds; all other entries and the offline
  store are unchanged, and \<^verbatim>\<open>close\<close> is called on the socket of the thread.
\<close>

theorem close_removes_identifier:
  assumes "truthy cid" and "key_of cid = Some k"
  shows "map_of (clients (fst (session_close c cid s))) k = None
       \<and> (\<forall>k'. k' \<noteq> k \<longrightarrow>
            map_of (clients (fst (session_close c cid s))) k' = map_of (clients s) k')
       \<and> offline_messages (fst (session_close c cid s)) = offline_messages s
       \<and> snd (session_close c cid s) = [Close c]"
  using assms by (auto simp: session_close_def delete_conv')

theorem close_removes_identifier_witness:
  "map_of (clients (fst (session_close 1 (JStr ''B'') B_on_socket_2))) (KStr ''B'') = None
   \<and> snd (session_close 1 (JStr ''B'') B_on_socket_2) = [Close 1]"
  using close_removes_identifier [of "JStr ''B''" "KStr ''B''" 1 B_on_socket_2]
  by simp

lemma close_without_identifier: "session_close c JNull s = (s, [Close c])"
  by (simp add: session_close_def)

subsection \<open>Input that is not a known frame\<close>

text \<open>
  What the loop does discard: text that \<^verbatim>\<open>json.loads\<close> rejects, and a JSON object whose
  action is none of the three.
\<close>

lemma invalid_json_is_discarded:
  "handle_client_step now ok c BadJson cid s
     = \<lparr>r_flow = Continue, r_client_id = cid, r_server = s, r_events = []\<rparr>"
  by (simp add: handle_client_step_def)

lemma unknown_action_is_ignored:
  assumes "dict_get d ''action'' \<noteq> JStr ''register''"
    and "dict_get d ''action'' \<noteq> JStr ''heartbeat''"
    and "dict_get d ''action'' \<noteq> JStr ''message''"
  shows "handle_client_step now ok c (Decoded (JObj d)) cid s
     = \<lparr>r_flow = Continue, r_client_id = cid, r_server = s, r_events = []\<rparr>"
  using assms by (simp add: handle_client_step_def)

text \<open>
  C9 at the inputs where the source departs from it. B is registered on socket 2. A chunk
  that is not UTF-8 makes \<^verbatim>\<open>decode\<close> raise before the inner \<^verbatim>\<open>try\<close> is entered, and a
  JSON value that is not an object (here the empty array) makes \<^verbatim>\<open>message.get\<close> raise:
  either way the thread leaves its loop, the entry of B is deleted and the socket closed.
\<close>

theorem undecodable_input_closes_session:
  "srv B_registered = \<lparr>clients = [(KStr ''B'', \<lparr>socket = 2, last_seen = 0\<rparr>)],
                        offline_messages = []\<rparr>
   \<and> sys_step (1, Recv 2 Undecodable always_ok) B_registered
       = \<lparr>srv = \<lparr>clients = [], offline_messages = []\<rparr>, sessions = [], accepted = [2],
          closed = [2], clock = 1, swept = None\<rparr>
   \<and> sys_step (1, Recv 2 (Decoded (JArr [])) always_ok) B_registered
       = \<lparr>srv = \<lparr>clients = [], offline_messages = []\<rparr>, sessions = [], accepted = [2],
          closed = [2], clock = 1, swept = None\<rparr>"
  by (simp add: B_registered_eval model_defs)

subsection \<open>Heartbeats\<close>

text \<open>
  What a heartbeat does: it looks up the local variable \<^verbatim>\<open>client_id\<close> of the thread, set
  by the last registration on the connection, and stamps that entry when there is one. The
  frame is not consulted beyond its action.
\<close>

lemma heartbeat_touches_session_identifier:
  assumes "dict_get d ''action'' = JStr ''heartbeat''"
    and "key_of cid = Some k"
  shows "r_server (handle_client_step now ok c (Decoded (JObj d)) cid s)
           = (case map_of (clients s) k of
                None \<Rightarrow> s
              | Some info \<Rightarrow> s\<lparr>clients := AList.update k (info\<lparr>last_seen := now\<rparr>) (clients s)\<rparr>)"
    and "r_flow (handle_client_step now ok c (Decoded (JObj d)) cid s) = Continue"
    and "r_client_id (handle_client_step now ok c (Decoded (JObj d)) cid s) = cid"
  using assms by (simp_all add: handle_heartbeat on_heartbeat_def split: option.splits)

lemma heartbeat_before_register_without_null_entry:
  assumes "dict_get d ''action'' = JStr ''heartbeat''"
    and "map_of (clients s) KNone = None"
  shows "r_server (handle_client_step now ok c (Decoded (JObj d)) JNull s) = s"
  using assms by (simp add: handle_heartbeat on_heartbeat_def)

text \<open>
  C10 at the input where the source departs from it. In the run \<open>null_registered\<close> the
  connection on socket 1 has registered without a sender, which puts an entry under the
  key \<^verbatim>\<open>None\<close>; the connection on socket 2 has not registered, so its \<^verbatim>\<open>client_id\<close> is
  \<^verbatim>\<open>None\<close> too. Its heartbeat finds that entry and stamps it: the registry changes.
\<close>

theorem heartbeat_before_register_touches_null_entry:
  "map_of (sessions null_registered) 2 = Some JNull
   \<and> clients (srv null_registered) = [(KNone, \<lparr>socket = 1, last_seen = 0\<rparr>)]
   \<and> clients (srv (sys_step (12, Recv 2 (Decoded (JObj heartbeat_x)) always_ok) null_registered))
       = [(KNone, \<lparr>socket = 1, last_seen = 12\<rparr>)]"
  by (simp add: null_registered_eval heartbeat_x_def model_defs)

end
